theory Spec2Isabelle
  imports Complex_Main
begin

section \<open>The books pipeline: data model\<close>

text \<open>
  The three tasks of \<^verbatim>\<open>dags/dag.py\<close> are embedded as functions on an explicit
  world: the two XCom slots the tasks exchange, the printed lines, the committed
  \<^verbatim>\<open>books\<close> table and the connection object of the load task.

  A Python \<^verbatim>\<open>str\<close> is a \<^typ>\<open>string\<close> whose characters are read as the code
  points U+0000 to U+00FF, so the pound sign is \<^term>\<open>CHR 0xA3\<close>. On this range the
  regular expression class \<^verbatim>\<open>\d\<close> matches the ten ASCII digits only.
\<close>

text \<open>
  The exceptions the tasks can raise: \<open>ConnectionError\<close> from \<^verbatim>\<open>requests.get\<close>,
  \<open>MarkupError\<close> for any of the lookups on a container that finds nothing (the
  \<^verbatim>\<open>AttributeError\<close>, \<^verbatim>\<open>TypeError\<close>, \<^verbatim>\<open>KeyError\<close> or \<^verbatim>\<open>IndexError\<close> of the
  interpreter), \<open>ValueError\<close> from the float conversion, \<open>DatabaseError\<close> from
  psycopg2. No task has a \<^verbatim>\<open>return\<close> with a value, so a task that ends normally
  returns \<^verbatim>\<open>None\<close>.
\<close>

datatype error = ConnectionError | MarkupError | ValueError | DatabaseError

datatype pyval = PyNone | PyInt int

datatype outcome = Returned pyval | Raised error

text \<open>A scraped record: the dict with keys title, price and rating, all of them text.\<close>

record raw_item =
  raw_title :: string
  raw_price :: string
  raw_rating :: string

text \<open>
  A cleaned record. The price is a Python float, of a type \<open>'f\<close> left open: the
  conversion from the decimal numeral to the float is a parameter of the transform.
  The rating is \<open>None\<close> where pandas leaves a missing value.
\<close>

record 'f norm_item =
  title :: string
  price :: 'f
  rating :: "int option"

type_synonym 'f row = "string \<times> 'f \<times> int option"

datatype 'f log_msg =
    FailedToFetch nat
  | NoMoreBooks
  | Scraped nat
  | NoDataToTransform
  | CleanedSample
  | Head "'f norm_item list"
  | NoDataToLoad
  | Loaded nat

text \<open>
  The connection object: the table as the open transaction sees it (\<open>None\<close> when the
  relation does not exist), whether a cursor is open, whether the connection is closed.
\<close>

record 'f connection =
  view :: "'f row list option"
  cur_open :: bool
  closed :: bool

record 'f world =
  raw_book_data :: "raw_item list option"
  cleaned_book_data :: "'f norm_item list option"
  log :: "'f log_msg list"
  books_table :: "'f row list option"
  conn :: "'f connection option"
  calls :: nat
  commits :: nat

definition print :: "'f log_msg \<Rightarrow> 'f world \<Rightarrow> 'f world" where
  "print m w = w\<lparr>log := log w @ [m]\<rparr>"

section \<open>Extract: get\_books\_data\<close>

text \<open>
  What BeautifulSoup finds in one \<^verbatim>\<open>.product_pod\<close>: the title attribute reached by
  \<^verbatim>\<open>container.h3.a["title"]\<close> and the text of the first \<^verbatim>\<open>.price_color\<close> element
  (\<open>None\<close> where the navigation raises), and the class tokens of the first
  paragraph.
\<close>

record container =
  h3_a_title :: "string option"
  price_color_text :: "string option"
  p_class :: "string list option"

record response =
  status_code :: int
  product_pod :: "container list"

text \<open>
  \<^verbatim>\<open>requests.get\<close> either raises or answers. \<^verbatim>\<open>str.strip\<close> removes the white
  space of \<^verbatim>\<open>str.isspace\<close> at both ends.
\<close>

datatype fetched = Unreachable | Got response

definition py_isspace :: "char \<Rightarrow> bool" where
  "py_isspace c \<longleftrightarrow> (of_char c :: nat) \<in> set [9, 10, 11, 12, 13, 28, 29, 30, 31, 32, 133, 160]"

definition py_strip :: "string \<Rightarrow> string" where
  "py_strip s = rev (dropWhile py_isspace (rev (dropWhile py_isspace s)))"

definition extract_fields :: "container \<Rightarrow> error + raw_item" where
  "extract_fields c =
     (case h3_a_title c of
        None \<Rightarrow> Inl MarkupError
      | Some t \<Rightarrow>
          (case price_color_text c of
             None \<Rightarrow> Inl MarkupError
           | Some p \<Rightarrow>
               (case p_class c of
                  None \<Rightarrow> Inl MarkupError
                | Some cls \<Rightarrow>
                    if length cls < 2 then Inl MarkupError
                    else Inr \<lparr>raw_title = t, raw_price = py_strip p, raw_rating = cls ! 1\<rparr>)))"

text \<open>The inner \<^verbatim>\<open>for\<close> loop over the containers of one page.\<close>

fun extract_page :: "int \<Rightarrow> container list \<Rightarrow> raw_item list \<Rightarrow> error + raw_item list" where
  "extract_page num_books [] books = Inr books"
| "extract_page num_books (c # cs) books =
     (case extract_fields c of
        Inl e \<Rightarrow> Inl e
      | Inr b \<Rightarrow>
          (let books' = books @ [b]
           in if int (length books') \<ge> num_books then Inr books'
              else extract_page num_books cs books'))"

lemma extract_page_grows:
  "extract_page n cs books = Inr books' \<Longrightarrow> cs \<noteq> [] \<Longrightarrow> length books < length books'"
proof (induction cs arbitrary: books)
  case Nil
  then show ?case by simp
next
  case (Cons c cs)
  from Cons.prems(1) obtain b where b: "extract_fields c = Inr b"
    by (cases "extract_fields c") auto
  show ?case
  proof (cases "int (length (books @ [b])) \<ge> n")
    case True
    with Cons.prems(1) b show ?thesis by auto
  next
    case False
    with Cons.prems(1) b have r: "extract_page n cs (books @ [b]) = Inr books'"
      by (simp add: Let_def)
    show ?thesis
    proof (cases cs)
      case Nil
      with r show ?thesis by auto
    next
      case (Cons d ds)
      with Cons.IH[OF r] show ?thesis by simp
    qed
  qed
qed

text \<open>The outer \<^verbatim>\<open>while\<close> loop; it carries the list, the page number and the world.\<close>

function scrape :: "(nat \<Rightarrow> fetched) \<Rightarrow> int \<Rightarrow> raw_item list \<Rightarrow> nat \<Rightarrow> 'f world
    \<Rightarrow> error + (raw_item list \<times> 'f world)" where
  "scrape site num_books books page w =
     (if int (length books) < num_books then
        (case site page of
           Unreachable \<Rightarrow> Inl ConnectionError
         | Got resp \<Rightarrow>
             if status_code resp \<noteq> 200 then Inr (books, print (FailedToFetch page) w)
             else if product_pod resp = [] then Inr (books, print NoMoreBooks w)
             else
               (case extract_page num_books (product_pod resp) books of
                  Inl e \<Rightarrow> Inl e
                | Inr books' \<Rightarrow> scrape site num_books books' (page + 1) w))
      else Inr (books, w))"
  by pat_completeness auto
termination
proof (relation "measure (\<lambda>(site, n, books, page, w). nat (n - int (length books)))", goal_cases)
  case 1
  show ?case by simp
next
  case (2 site num_books books page w resp books')
  from extract_page_grows[OF 2(5) 2(4)] 2(1) show ?case by simp
qed

declare scrape.simps [simp del]

text \<open>
  The task itself. \<open>site\<close> answers the request for a page number. The list goes
  through \<^verbatim>\<open>pd.DataFrame\<close> and back through \<^verbatim>\<open>to_dict("records")\<close> unchanged, and is
  pushed to the slot \<^verbatim>\<open>raw_book_data\<close>.
\<close>

definition get_books_data :: "(nat \<Rightarrow> fetched) \<Rightarrow> int \<Rightarrow> 'f world \<Rightarrow> outcome \<times> 'f world" where
  "get_books_data site num_books w =
     (case scrape site num_books [] 1 w of
        Inl e \<Rightarrow> (Raised e, w)
      | Inr (books, w') \<Rightarrow>
          (Returned PyNone, (print (Scraped (length books)) w')\<lparr>raw_book_data := Some books\<rparr>))"

section \<open>Transform: transform\_books\_data\<close>

text \<open>
  \<^verbatim>\<open>.str.replace(r"[^\d.]", "", regex=True)\<close> on one cell: every character that is
  neither a digit nor a dot is dropped.
\<close>

definition is_digit :: "char \<Rightarrow> bool" where
  "is_digit c \<longleftrightarrow> c \<in> set ''0123456789''"

definition str_replace :: "string \<Rightarrow> string" where
  "str_replace s = filter (\<lambda>c. is_digit c \<or> c = CHR ''.'') s"

text \<open>\<^verbatim>\<open>.replace("", "0")\<close> on one cell: only a cell that is the empty string changes.\<close>

definition replace_empty :: "string \<Rightarrow> string" where
  "replace_empty s = (if s = [] then ''0'' else s)"

text \<open>The number a run of decimal digits denotes.\<close>

definition digits_value :: "string \<Rightarrow> nat" where
  "digits_value ds = foldl (\<lambda>a c. 10 * a + (of_char c - 48)) 0 ds"

text \<open>
  \<^verbatim>\<open>.astype(float)\<close> on one cell, which is Python's \<^verbatim>\<open>float(str)\<close>. The cell holds digits
  and dots only, so of the grammar of \<^verbatim>\<open>float\<close> there remain the forms \<^verbatim>\<open>12\<close>, \<^verbatim>\<open>12.\<close>,
  \<^verbatim>\<open>12.5\<close> and \<^verbatim>\<open>.5\<close>; any other cell is answered by \<open>ValueError\<close>. On a cell with
  another character (a sign, an exponent, blanks) this function is not Python's. The
  rounding \<open>to_float\<close> of the exact decimal value to a float belongs to the
  interpreter and is a parameter.
\<close>

definition astype_float :: "(rat \<Rightarrow> 'f) \<Rightarrow> string \<Rightarrow> error + 'f" where
  "astype_float to_float s =
     (let ip = takeWhile is_digit s; rest = dropWhile is_digit s
      in case rest of
           [] \<Rightarrow> if ip = [] then Inl ValueError else Inr (to_float (of_nat (digits_value ip)))
         | c # fp \<Rightarrow>
             if c = CHR ''.'' \<and> list_all is_digit fp \<and> (ip \<noteq> [] \<or> fp \<noteq> [])
             then Inr (to_float (of_nat (digits_value (ip @ fp)) / 10 ^ length fp))
             else Inl ValueError)"

text \<open>The conversion of the whole column raises at the first cell that does not parse.\<close>

fun astype_float_column :: "(rat \<Rightarrow> 'f) \<Rightarrow> string list \<Rightarrow> error + 'f list" where
  "astype_float_column to_float [] = Inr []"
| "astype_float_column to_float (s # ss) =
     (case astype_float to_float s of
        Inl e \<Rightarrow> Inl e
      | Inr x \<Rightarrow>
          (case astype_float_column to_float ss of
             Inl e \<Rightarrow> Inl e
           | Inr xs \<Rightarrow> Inr (x # xs)))"

text \<open>
  \<^verbatim>\<open>rating_map\<close> and \<^verbatim>\<open>Series.map\<close> on one cell: a label that is not a key gives a
  missing value. pandas then stores the whole column as floating point; the model keeps
  the number and does not distinguish 3 from 3.0.
\<close>

definition rating_map :: "string \<Rightarrow> int option" where
  "rating_map = map_of [(''One'', 1), (''Two'', 2), (''Three'', 3), (''Four'', 4), (''Five'', 5)]"

text \<open>\<^verbatim>\<open>df.to_dict("records")\<close>: the three columns, read row by row.\<close>

fun to_dict_records :: "string list \<Rightarrow> 'f list \<Rightarrow> int option list \<Rightarrow> 'f norm_item list" where
  "to_dict_records (t # ts) (p # ps) (r # rs) =
     \<lparr>title = t, price = p, rating = r\<rparr> # to_dict_records ts ps rs"
| "to_dict_records _ _ _ = []"

text \<open>
  The task: the three columns are rewritten one after the other, the price column
  first (\<^verbatim>\<open>.astype(str)\<close> leaves a text cell as it is).
\<close>

definition transform_books_data :: "(rat \<Rightarrow> 'f) \<Rightarrow> 'f world \<Rightarrow> outcome \<times> 'f world" where
  "transform_books_data to_float w =
     (case raw_book_data w of
        None \<Rightarrow> (Returned PyNone, print NoDataToTransform w)
      | Some records \<Rightarrow>
          if records = [] then (Returned PyNone, print NoDataToTransform w)
          else
            (case astype_float_column to_float
                    (map replace_empty (map str_replace (map raw_price records))) of
               Inl e \<Rightarrow> (Raised e, w)
             | Inr prices \<Rightarrow>
                 (let ratings = map rating_map (map raw_rating records);
                      titles = map py_strip (map raw_title records);
                      df = to_dict_records titles prices ratings
                  in (Returned PyNone,
                      (print (Head (take 5 df)) (print CleanedSample w))
                        \<lparr>cleaned_book_data := Some df\<rparr>))))"

section \<open>Load: save\_to\_postgres\<close>

text \<open>
  The database is a collaborator: whether its \<open>k\<close>-th call of the run succeeds is given
  by \<open>ok k\<close>, and \<^term>\<open>calls w\<close> counts the calls made so far. A row is the triple the
  \<^verbatim>\<open>INSERT\<close> supplies; the columns \<^verbatim>\<open>id\<close> and \<^verbatim>\<open>created_at\<close>, filled in by the
  database, are not modelled.
\<close>

datatype 'f sql = CreateTableIfNotExists | InsertInto "'f row"

definition psycopg2_connect :: "(nat \<Rightarrow> bool) \<Rightarrow> 'f world \<Rightarrow> error option \<times> 'f world" where
  "psycopg2_connect ok w =
     (if ok (calls w)
      then (None, w\<lparr>calls := Suc (calls w),
                    conn := Some \<lparr>view = books_table w, cur_open = False, closed = False\<rparr>\<rparr>)
      else (Some DatabaseError, w\<lparr>calls := Suc (calls w)\<rparr>))"

definition conn_cursor :: "'f world \<Rightarrow> 'f world" where
  "conn_cursor w = w\<lparr>conn := map_option (\<lambda>c. c\<lparr>cur_open := True\<rparr>) (conn w)\<rparr>"

text \<open>
  One statement inside the open transaction. \<^verbatim>\<open>CREATE TABLE IF NOT EXISTS\<close> leaves an
  existing table as it is; \<^verbatim>\<open>INSERT\<close> adds the row at the end and fails when the relation
  does not exist.
\<close>

fun run_sql :: "'f sql \<Rightarrow> 'f row list option \<Rightarrow> 'f row list option option" where
  "run_sql CreateTableIfNotExists None = Some (Some [])"
| "run_sql CreateTableIfNotExists (Some rows) = Some (Some rows)"
| "run_sql (InsertInto r) None = None"
| "run_sql (InsertInto r) (Some rows) = Some (Some (rows @ [r]))"

definition cur_execute :: "(nat \<Rightarrow> bool) \<Rightarrow> 'f sql \<Rightarrow> 'f world \<Rightarrow> error option \<times> 'f world" where
  "cur_execute ok stmt w =
     (let w' = w\<lparr>calls := Suc (calls w)\<rparr>
      in case conn w of
           None \<Rightarrow> (Some DatabaseError, w')
         | Some c \<Rightarrow>
             if closed c \<or> \<not> cur_open c \<or> \<not> ok (calls w) then (Some DatabaseError, w')
             else
               (case run_sql stmt (view c) of
                  None \<Rightarrow> (Some DatabaseError, w')
                | Some v \<Rightarrow> (None, w'\<lparr>conn := Some (c\<lparr>view := v\<rparr>)\<rparr>)))"

text \<open>The \<^verbatim>\<open>for r in records\<close> loop of inserts.\<close>

fun insert_records :: "(nat \<Rightarrow> bool) \<Rightarrow> 'f norm_item list \<Rightarrow> 'f world \<Rightarrow> error option \<times> 'f world" where
  "insert_records ok [] w = (None, w)"
| "insert_records ok (r # rs) w =
     (case cur_execute ok (InsertInto (title r, price r, rating r)) w of
        (Some e, w') \<Rightarrow> (Some e, w')
      | (None, w') \<Rightarrow> insert_records ok rs w')"

definition conn_commit :: "(nat \<Rightarrow> bool) \<Rightarrow> 'f world \<Rightarrow> error option \<times> 'f world" where
  "conn_commit ok w =
     (let w' = w\<lparr>calls := Suc (calls w)\<rparr>
      in case conn w of
           None \<Rightarrow> (Some DatabaseError, w')
         | Some c \<Rightarrow>
             if closed c \<or> \<not> ok (calls w) then (Some DatabaseError, w')
             else (None, w'\<lparr>books_table := view c, commits := Suc (commits w)\<rparr>))"

definition cur_close :: "'f world \<Rightarrow> 'f world" where
  "cur_close w = w\<lparr>conn := map_option (\<lambda>c. c\<lparr>cur_open := False\<rparr>) (conn w)\<rparr>"

definition conn_close :: "'f world \<Rightarrow> 'f world" where
  "conn_close w = w\<lparr>conn := map_option (\<lambda>c. c\<lparr>closed := True\<rparr>) (conn w)\<rparr>"

definition save_to_postgres :: "(nat \<Rightarrow> bool) \<Rightarrow> 'f world \<Rightarrow> outcome \<times> 'f world" where
  "save_to_postgres ok w =
     (case cleaned_book_data w of
        None \<Rightarrow> (Returned PyNone, print NoDataToLoad w)
      | Some records \<Rightarrow>
          if records = [] then (Returned PyNone, print NoDataToLoad w)
          else
            (case psycopg2_connect ok w of
               (Some e, w1) \<Rightarrow> (Raised e, w1)
             | (None, w1) \<Rightarrow>
                 (case cur_execute ok CreateTableIfNotExists (conn_cursor w1) of
                    (Some e, w2) \<Rightarrow> (Raised e, w2)
                  | (None, w2) \<Rightarrow>
                      (case insert_records ok records w2 of
                         (Some e, w3) \<Rightarrow> (Raised e, w3)
                       | (None, w3) \<Rightarrow>
                           (case conn_commit ok w3 of
                              (Some e, w4) \<Rightarrow> (Raised e, w4)
                            | (None, w4) \<Rightarrow>
                                (Returned PyNone,
                                 print (Loaded (length records))
                                   (conn_close (cur_close w4))))))))"

section \<open>Reference definitions and sample inputs\<close>

text \<open>
  The normalisation as the specification words it, one record at a time, written without
  the functions of the transform above. Trimming removes the white space at both ends
  of the title.
\<close>

definition spec_whitespace :: "char \<Rightarrow> bool" where
  "spec_whitespace c \<longleftrightarrow>
     c \<in> set [CHR 0x09, CHR 0x0A, CHR 0x0B, CHR 0x0C, CHR 0x0D, CHR 0x1C, CHR 0x1D, CHR 0x1E,
               CHR 0x1F, CHR 0x20, CHR 0x85, CHR 0xA0]"

fun trim_leading :: "string \<Rightarrow> string" where
  "trim_leading [] = []"
| "trim_leading (c # cs) = (if spec_whitespace c then trim_leading cs else c # cs)"

fun trim_trailing :: "string \<Rightarrow> string" where
  "trim_trailing [] = []"
| "trim_trailing (c # cs) =
     (let t = trim_trailing cs in if t = [] \<and> spec_whitespace c then [] else c # t)"

definition spec_title :: "string \<Rightarrow> string" where
  "spec_title s = trim_trailing (trim_leading s)"

text \<open>
  The price keeps its digits and dots; a decimal numeral is read from left to right,
  first the integer digits, then, after one dot, the fraction digits, and it needs at
  least one digit. The result is the exact value.
\<close>

fun spec_residue :: "string \<Rightarrow> string" where
  "spec_residue [] = []"
| "spec_residue (c # cs) =
     (if c \<in> set ''0123456789.'' then c # spec_residue cs else spec_residue cs)"

definition spec_digit :: "char \<Rightarrow> nat option" where
  "spec_digit = map_of [(CHR ''0'', 0), (CHR ''1'', 1), (CHR ''2'', 2), (CHR ''3'', 3),
     (CHR ''4'', 4), (CHR ''5'', 5), (CHR ''6'', 6), (CHR ''7'', 7), (CHR ''8'', 8), (CHR ''9'', 9)]"

fun decimal_fraction :: "rat \<Rightarrow> rat \<Rightarrow> bool \<Rightarrow> string \<Rightarrow> rat option" where
  "decimal_fraction acc unit seen [] = (if seen then Some acc else None)"
| "decimal_fraction acc unit seen (c # cs) =
     (case spec_digit c of
        None \<Rightarrow> None
      | Some d \<Rightarrow> decimal_fraction (acc + of_nat d * unit) (unit / 10) True cs)"

fun decimal_integer :: "nat \<Rightarrow> bool \<Rightarrow> string \<Rightarrow> rat option" where
  "decimal_integer acc seen [] = (if seen then Some (of_nat acc) else None)"
| "decimal_integer acc seen (c # cs) =
     (case spec_digit c of
        Some d \<Rightarrow> decimal_integer (10 * acc + d) True cs
      | None \<Rightarrow>
          if c = CHR ''.'' then decimal_fraction (of_nat acc) (1 / 10) seen cs else None)"

definition spec_decimal :: "string \<Rightarrow> rat option" where
  "spec_decimal s = decimal_integer 0 False s"

text \<open>An empty rest is read as \<^verbatim>\<open>"0"\<close>.\<close>

definition spec_price :: "string \<Rightarrow> rat option" where
  "spec_price s =
     (let residue = spec_residue s in spec_decimal (if residue = [] then ''0'' else residue))"

text \<open>The fixed ordinal lookup.\<close>

definition spec_rating :: "string \<Rightarrow> int option" where
  "spec_rating label =
     (if label = ''One'' then Some 1 else if label = ''Two'' then Some 2
      else if label = ''Three'' then Some 3 else if label = ''Four'' then Some 4
      else if label = ''Five'' then Some 5 else None)"


definition spec_normalize :: "(rat \<Rightarrow> 'f) \<Rightarrow> raw_item \<Rightarrow> 'f norm_item option" where
  "spec_normalize to_float r =
     (case spec_price (raw_price r) of
        None \<Rightarrow> None
      | Some q \<Rightarrow>
          Some \<lparr>title = spec_title (raw_title r), price = to_float q,
                rating = spec_rating (raw_rating r)\<rparr>)"

fun spec_normalize_all :: "(rat \<Rightarrow> 'f) \<Rightarrow> raw_item list \<Rightarrow> 'f norm_item list option" where
  "spec_normalize_all to_float [] = Some []"
| "spec_normalize_all to_float (r # rs) =
     (case spec_normalize to_float r of
        None \<Rightarrow> None
      | Some x \<Rightarrow>
          (case spec_normalize_all to_float rs of
             None \<Rightarrow> None
           | Some xs \<Rightarrow> Some (x # xs)))"

text \<open>A world in which nothing has run yet; its floats are the exact rationals.\<close>

definition fresh_world :: "rat world" where
  "fresh_world = \<lparr>raw_book_data = None, cleaned_book_data = None, log = [],
     books_table = None, conn = None, calls = 0, commits = 0\<rparr>"

text \<open>
  What the source offers on its first pages: \<open>available site page k\<close> is the list of
  records on the \<open>k\<close> pages from \<open>page\<close> on, when each of them answers 200 with at
  least one container and every container has the three fields.
\<close>

fun extract_all :: "container list \<Rightarrow> raw_item list option" where
  "extract_all [] = Some []"
| "extract_all (c # cs) =
     (case extract_fields c of
        Inl e \<Rightarrow> None
      | Inr b \<Rightarrow> map_option (\<lambda>bs. b # bs) (extract_all cs))"

fun available :: "(nat \<Rightarrow> fetched) \<Rightarrow> nat \<Rightarrow> nat \<Rightarrow> raw_item list option" where
  "available site page 0 = Some []"
| "available site page (Suc k) =
     (case site page of
        Unreachable \<Rightarrow> None
      | Got resp \<Rightarrow>
          if status_code resp = 200 \<and> product_pod resp \<noteq> [] then
            (case extract_all (product_pod resp) of
               None \<Rightarrow> None
             | Some items \<Rightarrow> map_option (\<lambda>rest. items @ rest) (available site (page + 1) k))
          else None)"

text \<open>
  A site of two pages with two books each, an empty third page, and 404 from there on.
\<close>

definition pod :: "string \<Rightarrow> container" where
  "pod t = \<lparr>h3_a_title = Some t, price_color_text = Some (CHR 0xA3 # ''51.77''),
     p_class = Some [''star-rating'', ''Three'']\<rparr>"

definition book :: "string \<Rightarrow> raw_item" where
  "book t = \<lparr>raw_title = t, raw_price = CHR 0xA3 # ''51.77'', raw_rating = ''Three''\<rparr>"

definition sample_site :: "nat \<Rightarrow> fetched" where
  "sample_site page =
     (if page = 1 then Got \<lparr>status_code = 200, product_pod = [pod ''a'', pod ''b'']\<rparr>
      else if page = 2 then Got \<lparr>status_code = 200, product_pod = [pod ''c'', pod ''d'']\<rparr>
      else if page = 3 then Got \<lparr>status_code = 200, product_pod = []\<rparr>
      else Got \<lparr>status_code = 404, product_pod = []\<rparr>)"

text \<open>
  The rows of the committed table (none while the relation does not exist), and the row
  an \<^verbatim>\<open>INSERT\<close> makes of a cleaned record.
\<close>

definition rows_of :: "'f world \<Rightarrow> 'f row list" where
  "rows_of w = (case books_table w of None \<Rightarrow> [] | Some rows \<Rightarrow> rows)"

definition row_of :: "'f norm_item \<Rightarrow> 'f row" where
  "row_of r = (title r, price r, rating r)"

text \<open>A cleaned record, and a world in which the transform has pushed it.\<close>

definition clean_a :: "rat norm_item" where
  "clean_a = \<lparr>title = ''Book A'', price = 25 / 2, rating = Some 3\<rparr>"

definition loaded_world :: "rat world" where
  "loaded_world = fresh_world\<lparr>cleaned_book_data := Some [clean_a]\<rparr>"

text \<open>The record of the specification's example.\<close>

definition book_a :: raw_item where
  "book_a = \<lparr>raw_title = '' Book A '', raw_price = CHR 0xA3 # ''12.50'', raw_rating = ''Three''\<rparr>"

text \<open>
  Three more records: one with white space around the title, a price without a digit
  and an unknown rating; one with a price in another format; one whose price is a lone
  dot.
\<close>

definition book_b :: raw_item where
  "book_b = \<lparr>raw_title = CHR 0x09 # ''Book B'' @ [CHR 0x0A], raw_price = ''free'',
     raw_rating = ''Six''\<rparr>"

definition book_c :: raw_item where
  "book_c = \<lparr>raw_title = ''Book C'', raw_price = ''$1,234.5'', raw_rating = ''Five''\<rparr>"

definition book_dot :: raw_item where
  "book_dot = \<lparr>raw_title = ''Book D'', raw_price = ''.'', raw_rating = ''One''\<rparr>"


section \<open>The rating lookup\<close>

lemma rating_map_cases:
  "rating_map label =
     (if label = ''One'' then Some 1 else if label = ''Two'' then Some 2
      else if label = ''Three'' then Some 3 else if label = ''Four'' then Some 4
      else if label = ''Five'' then Some 5 else None)"
  by (simp add: rating_map_def)




section \<open>The price column\<close>

lemma is_digit_dot [simp]: "\<not> is_digit CHR ''.''"
  by (simp add: is_digit_def)

lemma str_replace_id:
  "\<forall>c\<in>set s. is_digit c \<or> c = CHR ''.'' \<Longrightarrow> str_replace s = s"
  by (simp add: str_replace_def)

lemma format_idem:
  "replace_empty (str_replace (replace_empty (str_replace s))) = replace_empty (str_replace s)"
  by (simp add: replace_empty_def str_replace_def is_digit_def)

text \<open>A string of digits with exactly one dot splits at that dot into two runs of digits.\<close>

lemma split_at_dot:
  assumes all: "\<forall>c\<in>set s. is_digit c \<or> c = CHR ''.''" and one: "count_list s CHR ''.'' = 1"
  shows "\<exists>fp. dropWhile is_digit s = CHR ''.'' # fp \<and> list_all is_digit fp"
proof -
  have "CHR ''.'' \<in> set s"
    using one by (metis count_list_0_iff zero_neq_one)
  then have ne: "dropWhile is_digit s \<noteq> []"
    by (metis dropWhile_eq_Nil_conv is_digit_dot)
  then obtain c fp where d: "dropWhile is_digit s = c # fp"
    by (cases "dropWhile is_digit s") auto
  have "\<not> is_digit c"
    using d by (metis hd_dropWhile list.sel(1) ne)
  moreover have "c \<in> set s"
    using d by (metis list.set_intros(1) set_dropWhileD)
  ultimately have c: "c = CHR ''.''"
    using all by blast
  have s: "s = takeWhile is_digit s @ CHR ''.'' # fp"
    using d c by (metis takeWhile_dropWhile_id)
  have "count_list (takeWhile is_digit s @ CHR ''.'' # fp) CHR ''.'' = 1"
    using one s by simp
  then have "count_list fp CHR ''.'' = 0"
    by simp
  then have "CHR ''.'' \<notin> set fp"
    by (simp add: count_list_0_iff)
  moreover have "set fp \<subseteq> set s"
    using s by (metis Un_iff set_append set_subset_Cons subsetI subset_trans list.set_intros(2))
  ultimately have "list_all is_digit fp"
    using all by (auto simp: list_all_iff)
  with d c show ?thesis by simp
qed

lemma parse_numeric:
  assumes all: "\<forall>c\<in>set s. is_digit c \<or> c = CHR ''.''" and one: "count_list s CHR ''.'' = 1"
    and dig: "\<exists>c\<in>set s. is_digit c"
  shows "\<exists>v. astype_float to_float s = Inr v"
proof -
  from split_at_dot[OF all one] obtain fp where
    d: "dropWhile is_digit s = CHR ''.'' # fp" and fp: "list_all is_digit fp" by blast
  have s: "s = takeWhile is_digit s @ CHR ''.'' # fp"
    using d by (metis takeWhile_dropWhile_id)
  from dig obtain c where "c \<in> set s" "is_digit c" by blast
  then have "c \<in> set (takeWhile is_digit s) \<or> c \<in> set fp"
    using s by (metis Un_iff is_digit_dot set_ConsD set_append)
  then have "takeWhile is_digit s \<noteq> [] \<or> fp \<noteq> []" by auto
  then show ?thesis
    using d fp by (auto simp: astype_float_def Let_def)
qed

text \<open>
  Claim C9. On a price made of digits and exactly one dot, stripping and parsing gives
  what parsing the string itself gives (the same float, or the same error when the
  string is the lone dot); with at least one digit the parse succeeds. Formatting a
  formatted price changes nothing, for any price \<open>t\<close>.
\<close>

theorem price_format_idempotent:
  assumes "\<forall>c\<in>set s. is_digit c \<or> c = CHR ''.''" and "count_list s CHR ''.'' = 1"
  shows "astype_float to_float (replace_empty (str_replace s)) = astype_float to_float s
    \<and> ((\<exists>c\<in>set s. is_digit c) \<longrightarrow> (\<exists>v. astype_float to_float s = Inr v))
    \<and> replace_empty (str_replace (replace_empty (str_replace t))) = replace_empty (str_replace t)"
proof -
  have "s \<noteq> []" using assms(2) by auto
  then have "replace_empty (str_replace s) = s"
    using str_replace_id[OF assms(1)] by (simp add: replace_empty_def)
  then show ?thesis
    using parse_numeric[OF assms] format_idem by auto
qed

theorem price_format_idempotent_witness:
  "count_list ''12.50'' CHR ''.'' = 1
   \<and> astype_float (\<lambda>q. q) (replace_empty (str_replace ''12.50'')) = Inr (25 / 2)
   \<and> astype_float (\<lambda>q. q) ''12.50'' = Inr (25 / 2)"
proof -
  have a: "\<forall>c\<in>set ''12.50''. is_digit c \<or> c = CHR ''.''"
    by (simp add: is_digit_def)
  have b: "count_list ''12.50'' CHR ''.'' = 1"
    by simp
  have c: "astype_float (\<lambda>q::rat. q) ''12.50'' = Inr (25 / 2)"
    by (simp add: astype_float_def is_digit_def digits_value_def)
  from price_format_idempotent [OF a b, of "\<lambda>q. q" "''12.50''"] b c show ?thesis
    by simp
qed

text \<open>
  Claim C10. The price handling is not total. The prices \<^verbatim>\<open>"."\<close> and \<^verbatim>\<open>"1.2.3"\<close> keep
  a non-empty rest after stripping, the rest does not parse, and a batch holding such a
  record makes the transform raise \<open>ValueError\<close> with nothing emitted. Only the empty
  rest is read as zero, as for the price \<^verbatim>\<open>"free"\<close>.
\<close>

theorem price_not_total:
  "str_replace ''.'' \<noteq> [] \<and> str_replace ''1.2.3'' \<noteq> []
   \<and> astype_float to_float (replace_empty (str_replace ''.'')) = Inl ValueError
   \<and> astype_float to_float (replace_empty (str_replace ''1.2.3'')) = Inl ValueError
   \<and> transform_books_data to_float
        (w\<lparr>raw_book_data := Some [\<lparr>raw_title = t, raw_price = ''.'', raw_rating = r\<rparr>]\<rparr>)
       = (Raised ValueError,
          w\<lparr>raw_book_data := Some [\<lparr>raw_title = t, raw_price = ''.'', raw_rating = r\<rparr>]\<rparr>)
   \<and> transform_books_data to_float
        (w\<lparr>raw_book_data := Some [\<lparr>raw_title = t, raw_price = ''1.2.3'', raw_rating = r\<rparr>]\<rparr>)
       = (Raised ValueError,
          w\<lparr>raw_book_data := Some [\<lparr>raw_title = t, raw_price = ''1.2.3'', raw_rating = r\<rparr>]\<rparr>)
   \<and> str_replace ''free'' = []
   \<and> astype_float to_float (replace_empty (str_replace ''free'')) = Inr (to_float 0)"
  by (simp add: transform_books_data_def str_replace_def replace_empty_def astype_float_def
      is_digit_def digits_value_def)

theorem price_not_total_witness:
  "transform_books_data (\<lambda>q. q)
     (fresh_world\<lparr>raw_book_data := Some [\<lparr>raw_title = ''Book A'', raw_price = ''.'', raw_rating = ''Three''\<rparr>]\<rparr>)
   = (Raised ValueError,
      fresh_world\<lparr>raw_book_data := Some [\<lparr>raw_title = ''Book A'', raw_price = ''.'', raw_rating = ''Three''\<rparr>]\<rparr>)
   \<and> str_replace ''free'' = []"
  using price_not_total [where to_float = "\<lambda>q. q" and w = fresh_world
      and t = "''Book A''" and r = "''Three''"]
  by simp

section \<open>The transform, record by record\<close>

text \<open>The functions of the transform compute what the specification describes.\<close>

lemma of_char_is: "(of_char d :: nat) = n \<Longrightarrow> (of_char c = n) = (c = d)"
  by (metis of_char_eq_iff)

lemma py_isspace_spec: "py_isspace = spec_whitespace"
  by (rule ext)
    (simp add: py_isspace_def spec_whitespace_def
      of_char_is[where d = "CHR 0x09"] of_char_is[where d = "CHR 0x0A"]
      of_char_is[where d = "CHR 0x0B"] of_char_is[where d = "CHR 0x0C"]
      of_char_is[where d = "CHR 0x0D"] of_char_is[where d = "CHR 0x1C"]
      of_char_is[where d = "CHR 0x1D"] of_char_is[where d = "CHR 0x1E"]
      of_char_is[where d = "CHR 0x1F"] of_char_is[where d = "CHR 0x20"]
      of_char_is[where d = "CHR 0x85"] of_char_is[where d = "CHR 0xA0"])

lemma trim_leading_dropWhile: "trim_leading s = dropWhile spec_whitespace s"
  by (induction s) simp_all

lemma trim_trailing_Nil: "trim_trailing s = [] \<longleftrightarrow> (\<forall>c\<in>set s. spec_whitespace c)"
  by (induction s) (auto simp: Let_def)

lemma trim_trailing_rev: "trim_trailing s = rev (dropWhile spec_whitespace (rev s))"
proof (induction s)
  case Nil
  then show ?case by simp
next
  case (Cons c cs)
  show ?case
  proof (cases "\<forall>x\<in>set cs. spec_whitespace x")
    case True
    then have "trim_trailing cs = []" by (simp add: trim_trailing_Nil)
    moreover have "dropWhile spec_whitespace (rev cs @ [c]) = dropWhile spec_whitespace [c]"
      by (rule dropWhile_append2) (use True in auto)
    ultimately show ?thesis by simp
  next
    case False
    then have "trim_trailing cs \<noteq> []" by (simp add: trim_trailing_Nil)
    moreover have "dropWhile spec_whitespace (rev cs @ [c]) = dropWhile spec_whitespace (rev cs) @ [c]"
      using False by (auto simp: dropWhile_append1)
    ultimately show ?thesis using Cons.IH by (simp add: Let_def)
  qed
qed

lemma py_strip_spec: "py_strip s = spec_title s"
  by (simp add: py_strip_def spec_title_def trim_trailing_rev trim_leading_dropWhile
      py_isspace_spec)


lemma spec_digit_is_digit:
  "spec_digit c = (if is_digit c then Some (of_char c - 48) else None)"
  by (auto simp: spec_digit_def is_digit_def)

lemma str_replace_spec: "str_replace s = spec_residue s"
  by (induction s) (auto simp: str_replace_def is_digit_def)

text \<open>
  The two ways of reading a numeral agree: digits before and after the dot, taken as one
  number and scaled, against the digit-by-digit reading.
\<close>

lemma foldl_digits:
  "foldl (\<lambda>a c. 10 * a + (of_char c - 48)) a ds = a * 10 ^ length ds + digits_value ds"
proof (induction ds arbitrary: a)
  case Nil
  then show ?case by (simp add: digits_value_def)
next
  case (Cons c ds)
  have "digits_value (c # ds) = (of_char c - 48) * 10 ^ length ds + digits_value ds"
    using Cons.IH[of "of_char c - 48"] by (simp add: digits_value_def)
  then show ?case
    using Cons.IH[of "10 * a + (of_char c - 48)"] by (simp add: algebra_simps)
qed

lemma digits_value_Nil [simp]: "digits_value [] = 0"
  by (simp add: digits_value_def)

lemma digits_value_Cons:
  "digits_value (c # ds) = (of_char c - 48) * 10 ^ length ds + digits_value ds"
  using foldl_digits[of "of_char c - 48" ds] by (simp add: digits_value_def)

lemma digits_value_append:
  "digits_value (xs @ ys) = digits_value xs * 10 ^ length ys + digits_value ys"
  using foldl_digits[of "digits_value xs" ys] by (simp add: digits_value_def)

lemma decimal_fraction_eq:
  "decimal_fraction acc u seen fp =
     (if list_all is_digit fp \<and> (seen \<or> fp \<noteq> [])
      then Some (acc + u * 10 * of_nat (digits_value fp) / 10 ^ length fp) else None)"
proof (induction fp arbitrary: acc u seen)
  case Nil
  then show ?case by (simp add: digits_value_def)
next
  case (Cons c fp)
  show ?case
  proof (cases "is_digit c")
    case False
    then show ?thesis by (simp add: spec_digit_is_digit)
  next
    case True
    have "acc + of_nat (of_char c - 48) * u + u / 10 * 10 * of_nat (digits_value fp) / 10 ^ length fp
        = acc + u * 10 * of_nat (digits_value (c # fp)) / 10 ^ length (c # fp)"
      by (simp add: digits_value_Cons field_simps)
    with True show ?thesis
      by (simp add: spec_digit_is_digit Cons.IH)
  qed
qed

lemma decimal_integer_eq:
  "decimal_integer acc seen s =
     (let ip = takeWhile is_digit s; rest = dropWhile is_digit s;
          n = acc * 10 ^ length ip + digits_value ip
      in case rest of
           [] \<Rightarrow> if seen \<or> ip \<noteq> [] then Some (of_nat n) else None
         | c # fp \<Rightarrow>
             if c = CHR ''.'' \<and> list_all is_digit fp \<and> (seen \<or> ip \<noteq> [] \<or> fp \<noteq> [])
             then Some (of_nat n + of_nat (digits_value fp) / 10 ^ length fp) else None)"
proof (induction s arbitrary: acc seen)
  case Nil
  then show ?case by (simp add: digits_value_def)
next
  case (Cons c cs)
  show ?case
  proof (cases "is_digit c")
    case True
    show ?thesis
    proof (cases "dropWhile is_digit cs")
      case Nil
      with True show ?thesis
        by (simp add: spec_digit_is_digit Cons.IH Let_def digits_value_Cons algebra_simps
            del: dropWhile_eq_Nil_conv)
    next
      case (Cons d fp)
      with True show ?thesis
        by (simp add: spec_digit_is_digit Cons.IH Let_def digits_value_Cons algebra_simps)
    qed
  next
    case False
    then show ?thesis
      by (simp add: spec_digit_is_digit decimal_fraction_eq digits_value_def)
  qed
qed

lemma astype_float_spec:
  "astype_float to_float s =
     (case spec_decimal s of None \<Rightarrow> Inl ValueError | Some q \<Rightarrow> Inr (to_float q))"
proof (cases "dropWhile is_digit s")
  case Nil
  then show ?thesis
    by (simp add: astype_float_def spec_decimal_def decimal_integer_eq Let_def
        del: dropWhile_eq_Nil_conv)
next
  case (Cons c fp)
  have "(of_nat (digits_value ip) :: rat) + of_nat (digits_value fp) / 10 ^ length fp
      = of_nat (digits_value (ip @ fp)) / 10 ^ length fp" for ip
    by (simp add: digits_value_append field_simps)
  with Cons show ?thesis
    by (simp add: astype_float_def spec_decimal_def decimal_integer_eq Let_def)
qed

lemma code_functions_spec:
  "py_strip = spec_title" "rating_map = spec_rating" "str_replace = spec_residue"
  by (rule ext, simp add: py_strip_spec, rule ext, simp add: rating_map_cases spec_rating_def,
      rule ext, simp add: str_replace_spec)

lemma spec_columns:
  "(case astype_float_column to_float (map replace_empty (map spec_residue (map raw_price rs))) of
      Inl e \<Rightarrow> Inl e
    | Inr ps \<Rightarrow>
        Inr (to_dict_records (map spec_title (map raw_title rs)) ps
               (map spec_rating (map raw_rating rs))))
   = (case spec_normalize_all to_float rs of
        None \<Rightarrow> Inl ValueError
      | Some items \<Rightarrow> Inr items)"
proof (induction rs)
  case Nil
  then show ?case by simp
next
  case (Cons r rs)
  show ?case
  proof (cases "spec_price (raw_price r)")
    case None
    then show ?thesis
      by (simp add: spec_normalize_def spec_price_def astype_float_spec replace_empty_def Let_def)
  next
    case (Some q)
    then have "astype_float to_float (replace_empty (spec_residue (raw_price r))) = Inr (to_float q)"
      by (simp add: spec_price_def astype_float_spec replace_empty_def Let_def)
    with Some Cons.IH show ?thesis
      by (simp add: spec_normalize_def split: sum.splits option.splits)
  qed
qed

lemma column_wise_is_item_wise:
  "(case astype_float_column to_float (map replace_empty (map str_replace (map raw_price rs))) of
      Inl e \<Rightarrow> Inl e
    | Inr ps \<Rightarrow>
        Inr (to_dict_records (map py_strip (map raw_title rs)) ps
               (map rating_map (map raw_rating rs))))
   = (case spec_normalize_all to_float rs of
        None \<Rightarrow> Inl ValueError
      | Some items \<Rightarrow> Inr items)"
  by (simp only: code_functions_spec spec_columns)

lemma spec_normalize_all_nth:
  "spec_normalize_all to_float rs = Some items \<Longrightarrow>
     length items = length rs
     \<and> (\<forall>i<length rs. spec_normalize to_float (rs ! i) = Some (items ! i))"
proof (induction rs arbitrary: items)
  case Nil
  then show ?case by simp
next
  case (Cons r rs)
  from Cons.prems obtain x xs where x: "spec_normalize to_float r = Some x"
    and xs: "spec_normalize_all to_float rs = Some xs" and items: "items = x # xs"
    by (auto split: option.splits)
  from Cons.IH[OF xs] x items show ?case
    by (auto simp: nth_Cons split: nat.splits)
qed

lemma spec_normalize_all_None:
  "spec_normalize_all to_float rs = None \<longleftrightarrow> (\<exists>r\<in>set rs. spec_price (raw_price r) = None)"
  by (induction rs) (auto simp: spec_normalize_def split: option.splits)

lemma spec_normalize_book_a:
  "spec_normalize to_float book_a =
     Some \<lparr>title = ''Book A'', price = to_float (25 / 2), rating = Some 3\<rparr>"
  by (simp add: spec_normalize_def spec_price_def spec_decimal_def spec_digit_def
      spec_title_def spec_whitespace_def spec_rating_def book_a_def)

lemma spec_normalize_book_b:
  "spec_normalize to_float book_b =
     Some \<lparr>title = ''Book B'', price = to_float 0, rating = None\<rparr>"
  by (simp add: spec_normalize_def spec_price_def spec_decimal_def spec_digit_def
      spec_title_def spec_whitespace_def spec_rating_def book_b_def)

lemma spec_normalize_book_c:
  "spec_normalize to_float book_c =
     Some \<lparr>title = ''Book C'', price = to_float (2469 / 2), rating = Some 5\<rparr>"
  by (simp add: spec_normalize_def spec_price_def spec_decimal_def spec_digit_def
      spec_title_def spec_whitespace_def spec_rating_def book_c_def)

text \<open>
  Claim C4, as stated, fails: the record with title \<^verbatim>\<open>" Book A "\<close> has a
  normalisation, but in a batch with a record whose price is a lone dot the transform
  raises and no cleaned record is emitted for it.
\<close>

theorem one_bad_price_drops_the_batch:
  "spec_normalize (\<lambda>q. q) book_a = Some \<lparr>title = ''Book A'', price = 25 / 2, rating = Some 3\<rparr>
   \<and> transform_books_data (\<lambda>q. q) (fresh_world\<lparr>raw_book_data := Some [book_a, book_dot]\<rparr>)
       = (Raised ValueError, fresh_world\<lparr>raw_book_data := Some [book_a, book_dot]\<rparr>)"
proof -
  have "astype_float (\<lambda>q::rat. q) (replace_empty (str_replace (raw_price book_a))) = Inr (25 / 2)"
    by (simp add: book_a_def str_replace_def replace_empty_def astype_float_def is_digit_def
        digits_value_def)
  moreover have "astype_float (\<lambda>q::rat. q) (replace_empty (str_replace (raw_price book_dot)))
      = Inl ValueError"
    by (simp add: book_dot_def str_replace_def replace_empty_def astype_float_def is_digit_def)
  ultimately show ?thesis
    by (simp add: spec_normalize_book_a transform_books_data_def)
qed

text \<open>
  Claim C4, amended. On a non-empty batch in which every price, stripped to digits and
  dots and read as \<^verbatim>\<open>"0"\<close> when nothing is left, is a decimal numeral, the transform
  emits one cleaned record per scraped record, in the same order, the \<open>i\<close>-th being the
  normalisation of the \<open>i\<close>-th scraped record alone: that price parsed, the rating looked
  up in the fixed table, the title trimmed. When some price of the batch is not a
  decimal numeral, the transform raises for the whole batch and emits nothing. The
  record with title \<^verbatim>\<open>" Book A "\<close>, the price 12.50 in pounds and rating Three
  becomes Book A, 12.5, 3.
\<close>

theorem transform_is_item_wise:
  assumes "raw_book_data w = Some records" and "records \<noteq> []"
  shows "(case spec_normalize_all to_float records of
            None \<Rightarrow> transform_books_data to_float w = (Raised ValueError, w)
          | Some items \<Rightarrow>
              transform_books_data to_float w =
                (Returned PyNone,
                 w\<lparr>log := log w @ [CleanedSample, Head (take 5 items)],
                   cleaned_book_data := Some items\<rparr>)
              \<and> length items = length records
              \<and> (\<forall>i<length records. spec_normalize to_float (records ! i) = Some (items ! i)))
     \<and> (spec_normalize_all to_float records = None
          \<longleftrightarrow> (\<exists>r\<in>set records. spec_price (raw_price r) = None))
     \<and> spec_normalize to_float book_a =
         Some \<lparr>title = ''Book A'', price = to_float (25 / 2), rating = Some 3\<rparr>"
proof -
  note cw = column_wise_is_item_wise[where to_float = to_float and rs = records]
  have main: "case spec_normalize_all to_float records of
            None \<Rightarrow> transform_books_data to_float w = (Raised ValueError, w)
          | Some items \<Rightarrow>
              transform_books_data to_float w =
                (Returned PyNone,
                 w\<lparr>log := log w @ [CleanedSample, Head (take 5 items)],
                   cleaned_book_data := Some items\<rparr>)
              \<and> length items = length records
              \<and> (\<forall>i<length records. spec_normalize to_float (records ! i) = Some (items ! i))"
  proof (cases "spec_normalize_all to_float records")
    case None
    with cw assms show ?thesis
      by (auto simp: transform_books_data_def split: sum.splits)
  next
    case (Some items)
    with cw assms have "transform_books_data to_float w =
                (Returned PyNone,
                 w\<lparr>log := log w @ [CleanedSample, Head (take 5 items)],
                   cleaned_book_data := Some items\<rparr>)"
      by (auto simp: transform_books_data_def print_def Let_def split: sum.splits)
    with Some spec_normalize_all_nth[OF Some] show ?thesis by simp
  qed
  show ?thesis
    using main spec_normalize_all_None[of to_float records] spec_normalize_book_a[of to_float]
    by blast
qed

theorem transform_is_item_wise_witness:
  "transform_books_data (\<lambda>q. q) (fresh_world\<lparr>raw_book_data := Some [book_a, book_b, book_c]\<rparr>) =
     (Returned PyNone,
      fresh_world\<lparr>raw_book_data := Some [book_a, book_b, book_c],
        log := [CleanedSample,
                Head [\<lparr>title = ''Book A'', price = 25 / 2, rating = Some 3\<rparr>,
                      \<lparr>title = ''Book B'', price = 0, rating = None\<rparr>,
                      \<lparr>title = ''Book C'', price = 2469 / 2, rating = Some 5\<rparr>]],
        cleaned_book_data :=
          Some [\<lparr>title = ''Book A'', price = 25 / 2, rating = Some 3\<rparr>,
                \<lparr>title = ''Book B'', price = 0, rating = None\<rparr>,
                \<lparr>title = ''Book C'', price = 2469 / 2, rating = Some 5\<rparr>]\<rparr>)"
proof -
  have a: "raw_book_data (fresh_world\<lparr>raw_book_data := Some [book_a, book_b, book_c]\<rparr>)
      = Some [book_a, book_b, book_c]"
    by simp
  have b: "[book_a, book_b, book_c] \<noteq> []"
    by simp
  from transform_is_item_wise [OF a b, of "\<lambda>q. q"] show ?thesis
    by (simp add: spec_normalize_book_a spec_normalize_book_b spec_normalize_book_c
        fresh_world_def)
qed


section \<open>The collector\<close>

lemma extract_page_take:
  "extract_all cs = Some items \<Longrightarrow> int (length books) < n \<Longrightarrow>
     extract_page n cs books = Inr (take (nat n) (books @ items))"
proof (induction cs arbitrary: books items)
  case Nil
  then show ?case by simp
next
  case (Cons c cs)
  from Cons.prems(1) obtain b bs where b: "extract_fields c = Inr b"
    and bs: "extract_all cs = Some bs" and items: "items = b # bs"
    by (auto split: sum.splits)
  show ?case
  proof (cases "n \<le> int (length (books @ [b]))")
    case True
    with Cons.prems(2) have "nat n = length (books @ [b])" by simp
    then have "take (nat n) (books @ items) = books @ [b]"
      using items by simp
    with True b show ?thesis by (simp add: Let_def)
  next
    case False
    then have "int (length (books @ [b])) < n" by simp
    from Cons.IH[OF bs this] False b items show ?thesis
      by (simp add: Let_def)
  qed
qed

text \<open>
  Over \<open>k\<close> good pages the loop either takes all their records and goes on with the
  next page, or stops with the first \<open>n\<close> records.
\<close>

lemma scrape_available:
  "available site page k = Some items \<Longrightarrow> int (length books) \<le> n \<Longrightarrow>
     scrape site n books page w =
       (if int (length books + length items) < n then scrape site n (books @ items) (page + k) w
        else Inr (take (nat n) (books @ items), w))"
proof (induction k arbitrary: books page items)
  case 0
  then show ?case
    by (auto simp: scrape.simps[of site n books page w])
next
  case (Suc k)
  from Suc.prems(1) obtain resp its rest where
    site: "site page = Got resp" and st: "status_code resp = 200" and ne: "product_pod resp \<noteq> []"
    and its: "extract_all (product_pod resp) = Some its"
    and rest: "available site (page + 1) k = Some rest" and items: "items = its @ rest"
    by (auto split: fetched.splits if_splits option.splits)
  show ?case
  proof (cases "int (length books) < n")
    case False
    with Suc.prems(2) have "nat n = length books" by simp
    with False show ?thesis
      by (simp add: scrape.simps[of site n books page w])
  next
    case True
    define b where "b = take (nat n) (books @ its)"
    have step: "scrape site n books page w = scrape site n b (page + 1) w"
      using True site st ne extract_page_take[OF its True]
      by (simp add: scrape.simps[of site n books page w] b_def)
    have len: "int (length b) \<le> n" using True by (simp add: b_def)
    have ih: "scrape site n b (page + 1) w =
       (if int (length b + length rest) < n then scrape site n (b @ rest) (page + 1 + k) w
        else Inr (take (nat n) (b @ rest), w))"
      by (rule Suc.IH[OF rest len])
    show ?thesis
    proof (cases "int (length books + length its) < n")
      case True
      then have "b = books @ its" by (simp add: b_def)
      then have "b @ rest = books @ items" "length b + length rest = length books + length items"
        using items by simp_all
      with step ih show ?thesis by (simp only: add_Suc_right Suc_eq_plus1 add.assoc add.commute[of 1 k])
    next
      case False
      then have l: "length b = nat n" using True by (simp add: b_def)
      then have c1: "\<not> int (length b + length rest) < n" by simp
      have le: "nat n \<le> length (books @ its)" using False by simp
      have "take (nat n) ((books @ its) @ rest) = take (nat n) (books @ its)"
        using le by (metis append_Nil2 diff_is_0_eq take_0 take_append)
      moreover have "take (nat n) (b @ rest) = b"
        using l by simp
      ultimately have c2: "take (nat n) (b @ rest) = take (nat n) (books @ items)"
        using items by (simp add: b_def)
      have c3: "\<not> int (length books + length items) < n"
        using False items by simp
      show ?thesis using step ih c1 c2 c3 by (simp only: if_False)
    qed
  qed
qed

lemma extract_fields_pod: "extract_fields (pod t) = Inr (book t)"
  by (simp add: extract_fields_def pod_def book_def py_strip_def py_isspace_def)

lemma available_sample_site:
  "available sample_site 1 (Suc (Suc 0)) = Some [book ''a'', book ''b'', book ''c'', book ''d'']"
  by (simp add: sample_site_def extract_fields_pod)

text \<open>
  Claim C1. For a target \<open>n\<close> of at least 1, when the first \<open>k\<close> pages of the source
  hold at least \<open>n\<close> records, the collector returns normally and pushes exactly the first
  \<open>n\<close> of them: the rest of the page on which the count is reached is not extracted.
\<close>

theorem collector_reaches_target:
  assumes "1 \<le> n" and "available site 1 k = Some items" and "n \<le> int (length items)"
  shows "get_books_data site n w =
           (Returned PyNone,
            w\<lparr>log := log w @ [Scraped (nat n)], raw_book_data := Some (take (nat n) items)\<rparr>)
         \<and> int (length (take (nat n) items)) = n"
proof -
  have "scrape site n [] 1 w = Inr (take (nat n) items, w)"
    using scrape_available[OF assms(2), of "[]" n w] assms(1,3) by simp
  then show ?thesis
    using assms(1,3) by (simp add: get_books_data_def print_def)
qed

theorem collector_reaches_target_witness:
  "get_books_data sample_site 3 fresh_world =
     (Returned PyNone,
      fresh_world\<lparr>log := [Scraped 3], raw_book_data := Some [book ''a'', book ''b'', book ''c'']\<rparr>)"
proof -
  have a: "(1::int) \<le> 3" by simp
  have c: "(3::int) \<le> int (length [book ''a'', book ''b'', book ''c'', book ''d''])" by simp
  from collector_reaches_target [OF a available_sample_site c, of fresh_world]
  show ?thesis by (simp add: fresh_world_def)
qed

text \<open>
  Claim C8. When the first \<open>k\<close> pages hold fewer records than the target and the next
  page answers with a status other than 200, or with no container, the collector prints
  the warning, does not raise, and pushes exactly the records collected so far.
\<close>

theorem collector_partial_results:
  assumes "available site 1 k = Some items" and "int (length items) < n"
    and "site (Suc k) = Got resp" and "status_code resp \<noteq> 200 \<or> product_pod resp = []"
  shows "get_books_data site n w =
           (Returned PyNone,
            w\<lparr>log := log w @ [if status_code resp \<noteq> 200 then FailedToFetch (Suc k) else NoMoreBooks,
                               Scraped (length items)],
              raw_book_data := Some items\<rparr>)"
proof -
  have "scrape site n [] 1 w = scrape site n items (Suc k) w"
    using scrape_available[OF assms(1), of "[]" n w] assms(2) by simp
  also have "\<dots> = Inr (items, print (if status_code resp \<noteq> 200 then FailedToFetch (Suc k) else NoMoreBooks) w)"
    using assms(2,3,4) by (simp add: scrape.simps[of site n items "Suc k" w])
  finally show ?thesis
    by (simp add: get_books_data_def print_def)
qed


theorem collector_partial_results_witness:
  "get_books_data sample_site 7 fresh_world =
     (Returned PyNone,
      fresh_world\<lparr>log := [NoMoreBooks, Scraped 4],
        raw_book_data := Some [book ''a'', book ''b'', book ''c'', book ''d'']\<rparr>)"
proof -
  have b: "int (length [book ''a'', book ''b'', book ''c'', book ''d'']) < 7" by simp
  have c: "sample_site (Suc (Suc (Suc 0))) = Got \<lparr>status_code = 200, product_pod = []\<rparr>"
    by (simp add: sample_site_def)
  have d: "status_code \<lparr>status_code = 200, product_pod = []\<rparr> \<noteq> 200
      \<or> product_pod \<lparr>status_code = 200, product_pod = []\<rparr> = []" by simp
  from collector_partial_results [OF available_sample_site b c d, of fresh_world]
  show ?thesis by (simp add: fresh_world_def)
qed


section \<open>The persister\<close>

text \<open>
  The run makes \<open>length records + 3\<close> database calls: the connect, the
  \<^verbatim>\<open>CREATE TABLE\<close>, one \<^verbatim>\<open>INSERT\<close> per record and the commit.
\<close>

lemma insert_records_ok:
  "conn w = Some c \<Longrightarrow> \<not> closed c \<Longrightarrow> cur_open c \<Longrightarrow> view c = Some t \<Longrightarrow>
   \<forall>i<length rs. ok (calls w + i) \<Longrightarrow>
     insert_records ok rs w =
       (None, w\<lparr>calls := calls w + length rs,
                 conn := Some (c\<lparr>view := Some (t @ map row_of rs)\<rparr>)\<rparr>)"
proof (induction rs arbitrary: w c t)
  case Nil
  then show ?case by simp
next
  case (Cons r rs)
  have ok0: "ok (calls w)" using Cons.prems(5) by force
  have step: "cur_execute ok (InsertInto (title r, price r, rating r)) w =
      (None, w\<lparr>calls := Suc (calls w), conn := Some (c\<lparr>view := Some (t @ [row_of r])\<rparr>)\<rparr>)"
    using Cons.prems(1,2,3,4) ok0 by (simp add: cur_execute_def Let_def row_of_def)
  let ?w = "w\<lparr>calls := Suc (calls w), conn := Some (c\<lparr>view := Some (t @ [row_of r])\<rparr>)\<rparr>"
  have rest: "\<forall>i<length rs. ok (calls ?w + i)"
  proof (intro allI impI)
    fix i assume "i < length rs"
    then have "ok (calls w + Suc i)" using Cons.prems(5)[rule_format, of "Suc i"] by simp
    then show "ok (calls ?w + i)" by simp
  qed
  have "insert_records ok rs ?w =
       (None, ?w\<lparr>calls := calls ?w + length rs,
                 conn := Some (c\<lparr>view := Some (t @ [row_of r]), view := Some ((t @ [row_of r]) @ map row_of rs)\<rparr>)\<rparr>)"
    using Cons.IH[of ?w "c\<lparr>view := Some (t @ [row_of r])\<rparr>" "t @ [row_of r]", OF _ _ _ _ rest]
      Cons.prems(2,3) by simp
  with step show ?case by simp
qed

lemma insert_records_fail:
  "conn w = Some c \<Longrightarrow> \<not> closed c \<Longrightarrow> cur_open c \<Longrightarrow> view c = Some t \<Longrightarrow>
   \<exists>i<length rs. \<not> ok (calls w + i) \<Longrightarrow>
     \<exists>w' c'. insert_records ok rs w = (Some DatabaseError, w') \<and> conn w' = Some c' \<and> \<not> closed c'
        \<and> books_table w' = books_table w \<and> commits w' = commits w \<and> log w' = log w"
proof (induction rs arbitrary: w c t)
  case Nil
  then show ?case by simp
next
  case (Cons r rs)
  show ?case
  proof (cases "ok (calls w)")
    case False
    then show ?thesis
      using Cons.prems(1,2) by (simp add: cur_execute_def Let_def)
  next
    case True
    let ?w = "w\<lparr>calls := Suc (calls w), conn := Some (c\<lparr>view := Some (t @ [row_of r])\<rparr>)\<rparr>"
    have step: "cur_execute ok (InsertInto (title r, price r, rating r)) w = (None, ?w)"
      using Cons.prems(1,2,3,4) True by (simp add: cur_execute_def Let_def row_of_def)
    from Cons.prems(5) obtain i where i: "i < Suc (length rs)" "\<not> ok (calls w + i)" by auto
    with True obtain j where "i = Suc j" by (cases i) auto
    with i have "\<exists>j<length rs. \<not> ok (calls ?w + j)" by auto
    from Cons.IH[of ?w "c\<lparr>view := Some (t @ [row_of r])\<rparr>" "t @ [row_of r]", OF _ _ _ _ this]
      Cons.prems(2,3)
    obtain w' c' where "insert_records ok rs ?w = (Some DatabaseError, w')" "conn w' = Some c'"
      "\<not> closed c'" "books_table w' = books_table w" "commits w' = commits w" "log w' = log w"
      by auto
    with step show ?thesis by simp
  qed
qed

lemma save_success:
  assumes "cleaned_book_data w = Some records" and "records \<noteq> []"
    and "\<forall>i<length records + 3. ok (calls w + i)"
  shows "save_to_postgres ok w =
     (Returned PyNone,
      w\<lparr>calls := calls w + length records + 3,
        conn := Some \<lparr>view = Some (rows_of w @ map row_of records), cur_open = False, closed = True\<rparr>,
        books_table := Some (rows_of w @ map row_of records),
        commits := Suc (commits w),
        log := log w @ [Loaded (length records)]\<rparr>)"
proof -
  let ?c0 = "\<lparr>view = books_table w, cur_open = True, closed = False\<rparr>"
  let ?w1 = "w\<lparr>calls := Suc (calls w), conn := Some ?c0\<rparr>"
  let ?c1 = "\<lparr>view = Some (rows_of w), cur_open = True, closed = False\<rparr>"
  let ?w2 = "w\<lparr>calls := Suc (Suc (calls w)), conn := Some ?c1\<rparr>"
  let ?c2 = "\<lparr>view = Some (rows_of w @ map row_of records), cur_open = True, closed = False\<rparr>"
  let ?w3 = "w\<lparr>calls := Suc (Suc (calls w + length records)), conn := Some ?c2\<rparr>"
  have ok0: "ok (calls w)" using assms(3) by force
  have ok1: "ok (Suc (calls w))" using assms(3)[rule_format, of 1] by simp
  have oki: "\<forall>i<length records. ok (calls ?w2 + i)"
  proof (intro allI impI)
    fix i assume "i < length records"
    then show "ok (calls ?w2 + i)" using assms(3)[rule_format, of "i + 2"] by simp
  qed
  have okc: "ok (calls ?w3)" using assms(3)[rule_format, of "length records + 2"] by simp
  have s1: "psycopg2_connect ok w = (None, w\<lparr>calls := Suc (calls w),
       conn := Some \<lparr>view = books_table w, cur_open = False, closed = False\<rparr>\<rparr>)"
    using ok0 by (simp add: psycopg2_connect_def)
  have s1': "conn_cursor (w\<lparr>calls := Suc (calls w),
       conn := Some \<lparr>view = books_table w, cur_open = False, closed = False\<rparr>\<rparr>) = ?w1"
    by (simp add: conn_cursor_def)
  have "run_sql CreateTableIfNotExists (books_table w) = Some (Some (rows_of w))"
    by (cases "books_table w") (simp_all add: rows_of_def)
  then have s2: "cur_execute ok CreateTableIfNotExists ?w1 = (None, ?w2)"
    using ok1 by (simp add: cur_execute_def Let_def)
  have s3: "insert_records ok records ?w2 = (None, ?w3)"
    using insert_records_ok[of ?w2 ?c1 "rows_of w" records ok, OF _ _ _ _ oki] by simp
  have s4: "conn_commit ok ?w3 = (None, ?w3\<lparr>calls := Suc (calls ?w3),
       books_table := Some (rows_of w @ map row_of records), commits := Suc (commits w)\<rparr>)"
    using okc by (simp add: conn_commit_def Let_def)
  show ?thesis
    using assms(1,2)
    by (simp add: save_to_postgres_def s1 s1' s2 s3 s4 cur_close_def conn_close_def print_def)
qed

lemma save_failure:
  assumes "cleaned_book_data w = Some records" and "records \<noteq> []"
    and "\<exists>i<length records + 3. \<not> ok (calls w + i)"
  shows "\<exists>w'. save_to_postgres ok w = (Raised DatabaseError, w')
     \<and> books_table w' = books_table w \<and> commits w' = commits w \<and> log w' = log w
     \<and> (if ok (calls w) then \<exists>c. conn w' = Some c \<and> \<not> closed c else conn w' = conn w)"
proof (cases "ok (calls w)")
  case False
  then show ?thesis using assms(1,2)
    by (simp add: save_to_postgres_def psycopg2_connect_def)
next
  case ok0: True
  let ?c0 = "\<lparr>view = books_table w, cur_open = True, closed = False\<rparr>"
  let ?w1 = "w\<lparr>calls := Suc (calls w), conn := Some ?c0\<rparr>"
  have s1: "psycopg2_connect ok w = (None, w\<lparr>calls := Suc (calls w),
       conn := Some \<lparr>view = books_table w, cur_open = False, closed = False\<rparr>\<rparr>)"
    using ok0 by (simp add: psycopg2_connect_def)
  have s1': "conn_cursor (w\<lparr>calls := Suc (calls w),
       conn := Some \<lparr>view = books_table w, cur_open = False, closed = False\<rparr>\<rparr>) = ?w1"
    by (simp add: conn_cursor_def)
  show ?thesis
  proof (cases "ok (Suc (calls w))")
    case False
    then have "cur_execute ok CreateTableIfNotExists ?w1 =
        (Some DatabaseError, ?w1\<lparr>calls := Suc (calls ?w1)\<rparr>)"
      by (simp add: cur_execute_def Let_def)
    then show ?thesis using assms(1,2) ok0
      by (simp add: save_to_postgres_def s1 s1')
  next
    case ok1: True
    let ?c1 = "\<lparr>view = Some (rows_of w), cur_open = True, closed = False\<rparr>"
    let ?w2 = "w\<lparr>calls := Suc (Suc (calls w)), conn := Some ?c1\<rparr>"
    have "run_sql CreateTableIfNotExists (books_table w) = Some (Some (rows_of w))"
      by (cases "books_table w") (simp_all add: rows_of_def)
    then have s2: "cur_execute ok CreateTableIfNotExists ?w1 = (None, ?w2)"
      using ok1 by (simp add: cur_execute_def Let_def)
    show ?thesis
    proof (cases "\<forall>i<length records. ok (calls ?w2 + i)")
      case False
      then have "\<exists>i<length records. \<not> ok (calls ?w2 + i)" by blast
      from insert_records_fail[of ?w2 ?c1 "rows_of w" records ok, OF _ _ _ _ this]
      obtain w' c' where "insert_records ok records ?w2 = (Some DatabaseError, w')"
        "conn w' = Some c'" "\<not> closed c'" "books_table w' = books_table w"
        "commits w' = commits w" "log w' = log w"
        by auto
      then show ?thesis using assms(1,2) ok0
        by (simp add: save_to_postgres_def s1 s1' s2)
    next
      case oki: True
      let ?c2 = "\<lparr>view = Some (rows_of w @ map row_of records), cur_open = True, closed = False\<rparr>"
      let ?w3 = "w\<lparr>calls := Suc (Suc (calls w + length records)), conn := Some ?c2\<rparr>"
      have s3: "insert_records ok records ?w2 = (None, ?w3)"
        using insert_records_ok[of ?w2 ?c1 "rows_of w" records ok, OF _ _ _ _ oki] by simp
      from assms(3) obtain i where i: "i < length records + 3" "\<not> ok (calls w + i)" by blast
      have "i = length records + 2"
      proof (rule ccontr)
        assume "i \<noteq> length records + 2"
        with i(1) have lt: "i < length records + 2" by simp
        show False
        proof (cases "i < 2")
          case True
          then have "i = 0 \<or> i = 1" by arith
          with i(2) ok0 ok1 show False by auto
        next
          case False
          then have "i - 2 < length records" and e: "Suc (Suc (calls w)) + (i - 2) = calls w + i"
            using lt by simp_all
          then have "ok (Suc (Suc (calls w)) + (i - 2))"
            using oki[rule_format, of "i - 2"] by simp
          then have "ok (calls w + i)" by (simp only: e)
          with i(2) show False by blast
        qed
      qed
      with i(2) have "\<not> ok (calls ?w3)" by (simp add: add.commute)
      then have s4: "conn_commit ok ?w3 = (Some DatabaseError, ?w3\<lparr>calls := Suc (calls ?w3)\<rparr>)"
        by (simp add: conn_commit_def Let_def)
      show ?thesis using assms(1,2) ok0
        by (simp add: save_to_postgres_def s1 s1' s2 s3 s4)
    qed
  qed
qed


lemma save_no_data:
  "cleaned_book_data w = None \<or> cleaned_book_data w = Some [] \<Longrightarrow>
     save_to_postgres ok w = (Returned PyNone, w\<lparr>log := log w @ [NoDataToLoad]\<rparr>)"
  by (auto simp: save_to_postgres_def print_def)

lemma save_never_returns_int: "fst (save_to_postgres ok w) \<noteq> Returned (PyInt n)"
  by (auto simp: save_to_postgres_def split: option.splits prod.splits)

lemma save_loaded_world_ok:
  "save_to_postgres (\<lambda>i. True) loaded_world =
     (Returned PyNone,
      loaded_world\<lparr>calls := 4,
        conn := Some \<lparr>view = Some [(''Book A'', 25 / 2, Some 3)], cur_open = False, closed = True\<rparr>,
        books_table := Some [(''Book A'', 25 / 2, Some 3)],
        commits := 1,
        log := [Loaded 1]\<rparr>)"
  by (simp add: save_to_postgres_def loaded_world_def fresh_world_def clean_a_def
      psycopg2_connect_def conn_cursor_def cur_execute_def conn_commit_def cur_close_def
      conn_close_def print_def Let_def)

lemma save_rows:
  assumes "cleaned_book_data w = Some records" and "\<forall>i<length records + 3. ok (calls w + i)"
  shows "rows_of (snd (save_to_postgres ok w)) = rows_of w @ map row_of records
    \<and> cleaned_book_data (snd (save_to_postgres ok w)) = Some records
    \<and> (records \<noteq> [] \<longrightarrow> calls (snd (save_to_postgres ok w)) = calls w + length records + 3)"
proof (cases "records = []")
  case True
  with assms(1) save_no_data[of w ok] show ?thesis
    by (simp add: rows_of_def)
next
  case False
  with assms save_success[of w records ok] show ?thesis
    by (simp add: rows_of_def)
qed

text \<open>
  Claim C2, as stated, fails: when the \<^verbatim>\<open>INSERT\<close> of the only record raises, the
  function exits with the error and the connection it opened is not closed.
\<close>

theorem connection_left_open_on_failure:
  "save_to_postgres (\<lambda>i. i \<noteq> 2) loaded_world =
     (Raised DatabaseError,
      loaded_world\<lparr>calls := 3,
        conn := Some \<lparr>view = Some [], cur_open = True, closed = False\<rparr>\<rparr>)"
  by (simp add: save_to_postgres_def loaded_world_def fresh_world_def clean_a_def
      psycopg2_connect_def conn_cursor_def cur_execute_def conn_commit_def cur_close_def
      conn_close_def print_def Let_def)

text \<open>
  Claim C2, amended. The connection is closed on the normal path only: when every
  database call succeeds, the function returns with the connection closed; when the
  connect succeeded and a later statement or the commit raises, the error propagates and
  the connection is left open; when the connect itself raises, or the input is empty or
  absent, no connection is acquired.
\<close>

theorem connection_closed_on_normal_path:
  "((cleaned_book_data w = None \<or> cleaned_book_data w = Some []) \<longrightarrow>
      conn (snd (save_to_postgres ok w)) = conn w \<and> calls (snd (save_to_postgres ok w)) = calls w)
   \<and> (cleaned_book_data w = Some records \<and> records \<noteq> [] \<longrightarrow>
        ((\<forall>i<length records + 3. ok (calls w + i)) \<longrightarrow>
           fst (save_to_postgres ok w) = Returned PyNone
           \<and> (\<exists>c. conn (snd (save_to_postgres ok w)) = Some c \<and> closed c))
        \<and> (ok (calls w) \<and> (\<exists>i<length records + 3. \<not> ok (calls w + i)) \<longrightarrow>
           fst (save_to_postgres ok w) = Raised DatabaseError
           \<and> (\<exists>c. conn (snd (save_to_postgres ok w)) = Some c \<and> \<not> closed c))
        \<and> (\<not> ok (calls w) \<longrightarrow>
           fst (save_to_postgres ok w) = Raised DatabaseError
           \<and> conn (snd (save_to_postgres ok w)) = conn w))"
proof (intro conjI impI)
  assume "cleaned_book_data w = None \<or> cleaned_book_data w = Some []"
  from save_no_data[OF this, of ok]
  show "conn (snd (save_to_postgres ok w)) = conn w" "calls (snd (save_to_postgres ok w)) = calls w"
    by simp_all
next
  assume a: "cleaned_book_data w = Some records \<and> records \<noteq> []"
    and b: "\<forall>i<length records + 3. ok (calls w + i)"
  from a b save_success[of w records ok]
  show "fst (save_to_postgres ok w) = Returned PyNone"
    "\<exists>c. conn (snd (save_to_postgres ok w)) = Some c \<and> closed c"
    by simp_all
next
  assume a: "cleaned_book_data w = Some records \<and> records \<noteq> []"
    and b: "ok (calls w) \<and> (\<exists>i<length records + 3. \<not> ok (calls w + i))"
  from a b save_failure[of w records ok]
  show "fst (save_to_postgres ok w) = Raised DatabaseError"
    "\<exists>c. conn (snd (save_to_postgres ok w)) = Some c \<and> \<not> closed c"
    by auto
next
  assume a: "cleaned_book_data w = Some records \<and> records \<noteq> []"
    and b: "\<not> ok (calls w)"
  then have "\<exists>i<length records + 3. \<not> ok (calls w + i)"
    by (intro exI[of _ 0]) simp
  with a b save_failure[of w records ok]
  show "fst (save_to_postgres ok w) = Raised DatabaseError"
    "conn (snd (save_to_postgres ok w)) = conn w"
    by auto
qed

theorem connection_closed_on_normal_path_witness:
  "(\<exists>c. conn (snd (save_to_postgres (\<lambda>i. True) loaded_world)) = Some c \<and> closed c)
   \<and> fst (save_to_postgres (\<lambda>i. i \<noteq> 2) loaded_world) = Raised DatabaseError
   \<and> (\<exists>c. conn (snd (save_to_postgres (\<lambda>i. i \<noteq> 2) loaded_world)) = Some c \<and> \<not> closed c)"
proof -
  have a: "cleaned_book_data loaded_world = Some [clean_a] \<and> [clean_a] \<noteq> []"
    by (simp add: loaded_world_def)
  have b: "\<forall>i<length [clean_a] + 3. (\<lambda>i. True) (calls loaded_world + i)"
    by simp
  have c: "(\<lambda>i. i \<noteq> 2) (calls loaded_world) \<and>
      (\<exists>i<length [clean_a] + 3. \<not> (\<lambda>i. i \<noteq> 2) (calls loaded_world + i))"
    by (simp add: loaded_world_def fresh_world_def)
  from connection_closed_on_normal_path
      [where w = loaded_world and records = "[clean_a]" and ok = "\<lambda>i. True"] a b
    connection_closed_on_normal_path
      [where w = loaded_world and records = "[clean_a]" and ok = "\<lambda>i. i \<noteq> 2"] c
  show ?thesis by blast
qed


text \<open>
  Claim C3, as stated, fails: the function returns \<^verbatim>\<open>None\<close>, not the count, both for
  one record written and for absent input.
\<close>

theorem persister_returns_none:
  "fst (save_to_postgres (\<lambda>i. True) loaded_world) = Returned PyNone
   \<and> fst (save_to_postgres (\<lambda>i. True) loaded_world) \<noteq> Returned (PyInt 1)
   \<and> fst (save_to_postgres (\<lambda>i. True) fresh_world) = Returned PyNone
   \<and> fst (save_to_postgres (\<lambda>i. True) fresh_world) \<noteq> Returned (PyInt 0)"
proof -
  have "cleaned_book_data fresh_world = None"
    by (simp add: fresh_world_def)
  then have "fst (save_to_postgres (\<lambda>i. True) fresh_world) = Returned PyNone"
    by (simp add: save_no_data)
  then show ?thesis
    by (simp add: save_loaded_world_ok)
qed

text \<open>
  Claim C3, amended. The function never returns a number. For empty or absent input it
  prints the warning and returns \<^verbatim>\<open>None\<close> with the database untouched; for a non-empty
  input of \<open>N\<close> records with every database call succeeding it returns \<^verbatim>\<open>None\<close>, the
  table has \<open>N\<close> rows more, and the printed line reports \<open>N\<close>.
\<close>

theorem persister_logs_count:
  "fst (save_to_postgres ok w) \<noteq> Returned (PyInt n)
   \<and> ((cleaned_book_data w = None \<or> cleaned_book_data w = Some []) \<longrightarrow>
        save_to_postgres ok w = (Returned PyNone, w\<lparr>log := log w @ [NoDataToLoad]\<rparr>))
   \<and> (cleaned_book_data w = Some records \<and> records \<noteq> []
        \<and> (\<forall>i<length records + 3. ok (calls w + i)) \<longrightarrow>
          fst (save_to_postgres ok w) = Returned PyNone
          \<and> log (snd (save_to_postgres ok w)) = log w @ [Loaded (length records)]
          \<and> length (rows_of (snd (save_to_postgres ok w))) = length (rows_of w) + length records)"
proof (intro conjI impI)
  show "fst (save_to_postgres ok w) \<noteq> Returned (PyInt n)"
    by (rule save_never_returns_int)
next
  assume "cleaned_book_data w = None \<or> cleaned_book_data w = Some []"
  then show "save_to_postgres ok w = (Returned PyNone, w\<lparr>log := log w @ [NoDataToLoad]\<rparr>)"
    by (rule save_no_data)
next
  assume a: "cleaned_book_data w = Some records \<and> records \<noteq> []
        \<and> (\<forall>i<length records + 3. ok (calls w + i))"
  from a save_success[of w records ok]
  show "fst (save_to_postgres ok w) = Returned PyNone"
    "log (snd (save_to_postgres ok w)) = log w @ [Loaded (length records)]"
    "length (rows_of (snd (save_to_postgres ok w))) = length (rows_of w) + length records"
    by (simp_all add: rows_of_def)
qed

theorem persister_logs_count_witness:
  "fst (save_to_postgres (\<lambda>i. True) loaded_world) = Returned PyNone
   \<and> log (snd (save_to_postgres (\<lambda>i. True) loaded_world)) = [Loaded 1]
   \<and> length (rows_of (snd (save_to_postgres (\<lambda>i. True) loaded_world))) = 1
   \<and> save_to_postgres (\<lambda>i. True) fresh_world = (Returned PyNone, fresh_world\<lparr>log := [NoDataToLoad]\<rparr>)"
proof -
  have a: "cleaned_book_data loaded_world = Some [clean_a] \<and> [clean_a] \<noteq> []
      \<and> (\<forall>i<length [clean_a] + 3. (\<lambda>i. True) (calls loaded_world + i))"
    by (simp add: loaded_world_def)
  have b: "cleaned_book_data fresh_world = None \<or> cleaned_book_data fresh_world = Some []"
    by (simp add: fresh_world_def)
  have c: "log loaded_world = []" "rows_of loaded_world = []" "log fresh_world = []"
    by (simp_all add: loaded_world_def fresh_world_def rows_of_def)
  from persister_logs_count
      [where w = loaded_world and records = "[clean_a]" and ok = "\<lambda>i. True" and n = 0] a
    persister_logs_count
      [where w = fresh_world and records = "[]" and ok = "\<lambda>i. True" and n = 0] b c
  show ?thesis by simp
qed

text \<open>
  Claim C6. When the database calls succeed, persisting the records leaves the rows
  that were in the table as they are and appends one row per record, with the record's
  title, price and rating, in the order of the input; persisting the same records a
  second time appends them again, so the table has grown by twice their number.
\<close>

theorem persist_appends_in_order:
  assumes "cleaned_book_data w = Some records"
    and "\<forall>i<2 * (length records + 3). ok (calls w + i)"
  shows "rows_of (snd (save_to_postgres ok w)) = rows_of w @ map row_of records
    \<and> rows_of (snd (save_to_postgres ok (snd (save_to_postgres ok w))))
        = rows_of w @ map row_of records @ map row_of records
    \<and> length (rows_of (snd (save_to_postgres ok (snd (save_to_postgres ok w)))))
        = length (rows_of w) + 2 * length records"
proof -
  let ?w1 = "snd (save_to_postgres ok w)"
  have first: "\<forall>i<length records + 3. ok (calls w + i)"
    using assms(2) by simp
  note r1 = save_rows[OF assms(1) first]
  have second: "\<forall>i<length records + 3. ok (calls ?w1 + i)"
  proof (cases "records = []")
    case True
    with assms(1) save_no_data[of w ok] first show ?thesis by simp
  next
    case False
    with r1 have c: "calls ?w1 = calls w + length records + 3" by simp
    show ?thesis
    proof (intro allI impI)
      fix i assume "i < length records + 3"
      then have "length records + 3 + i < 2 * (length records + 3)" by simp
      with assms(2) have "ok (calls w + (length records + 3 + i))" by blast
      then show "ok (calls ?w1 + i)" by (simp add: c add.assoc)
    qed
  qed
  have r2: "rows_of (snd (save_to_postgres ok ?w1)) = rows_of ?w1 @ map row_of records"
    using save_rows[of ?w1 records ok] r1 second by blast
  with r1 show ?thesis by simp
qed

theorem persist_appends_in_order_witness:
  "rows_of (snd (save_to_postgres (\<lambda>i. True) loaded_world)) = [(''Book A'', 25 / 2, Some 3)]
   \<and> rows_of (snd (save_to_postgres (\<lambda>i. True) (snd (save_to_postgres (\<lambda>i. True) loaded_world))))
       = [(''Book A'', 25 / 2, Some 3), (''Book A'', 25 / 2, Some 3)]"
proof -
  have a: "cleaned_book_data loaded_world = Some [clean_a]"
    by (simp add: loaded_world_def)
  have b: "\<forall>i<2 * (length [clean_a] + 3). (\<lambda>i. True) (calls loaded_world + i)"
    by simp
  have c: "rows_of loaded_world = []" "row_of clean_a = (''Book A'', 25 / 2, Some 3)"
    by (simp_all add: loaded_world_def fresh_world_def rows_of_def row_of_def clean_a_def)
  from persist_appends_in_order [OF a b] c show ?thesis by simp
qed

text \<open>
  Claim C7. For a non-empty input: when every database call succeeds there is exactly
  one commit, and the committed table then holds all the new rows; when any call fails
  the function raises, no commit happens and the committed table is what it was.
\<close>

theorem commit_once_or_not_at_all:
  assumes "cleaned_book_data w = Some records" and "records \<noteq> []"
  shows "((\<forall>i<length records + 3. ok (calls w + i)) \<longrightarrow>
            fst (save_to_postgres ok w) = Returned PyNone
            \<and> commits (snd (save_to_postgres ok w)) = Suc (commits w)
            \<and> books_table (snd (save_to_postgres ok w)) = Some (rows_of w @ map row_of records))
     \<and> ((\<exists>i<length records + 3. \<not> ok (calls w + i)) \<longrightarrow>
            fst (save_to_postgres ok w) = Raised DatabaseError
            \<and> commits (snd (save_to_postgres ok w)) = commits w
            \<and> books_table (snd (save_to_postgres ok w)) = books_table w)"
proof (intro conjI impI)
  assume b: "\<forall>i<length records + 3. ok (calls w + i)"
  from save_success[OF assms b]
  show "fst (save_to_postgres ok w) = Returned PyNone"
    "commits (snd (save_to_postgres ok w)) = Suc (commits w)"
    "books_table (snd (save_to_postgres ok w)) = Some (rows_of w @ map row_of records)"
    by simp_all
next
  assume b: "\<exists>i<length records + 3. \<not> ok (calls w + i)"
  from save_failure[OF assms b]
  show "fst (save_to_postgres ok w) = Raised DatabaseError"
    "commits (snd (save_to_postgres ok w)) = commits w"
    "books_table (snd (save_to_postgres ok w)) = books_table w"
    by auto
qed

theorem commit_once_or_not_at_all_witness:
  "fst (save_to_postgres (\<lambda>i. True) loaded_world) = Returned PyNone
   \<and> commits (snd (save_to_postgres (\<lambda>i. True) loaded_world)) = 1
   \<and> books_table (snd (save_to_postgres (\<lambda>i. True) loaded_world)) = Some [(''Book A'', 25 / 2, Some 3)]
   \<and> fst (save_to_postgres (\<lambda>i. i \<noteq> 2) loaded_world) = Raised DatabaseError
   \<and> commits (snd (save_to_postgres (\<lambda>i. i \<noteq> 2) loaded_world)) = 0
   \<and> books_table (snd (save_to_postgres (\<lambda>i. i \<noteq> 2) loaded_world)) = None"
proof -
  have a: "cleaned_book_data loaded_world = Some [clean_a]" and a': "[clean_a] \<noteq> []"
    by (simp_all add: loaded_world_def)
  have b: "\<forall>i<length [clean_a] + 3. (\<lambda>i. True) (calls loaded_world + i)"
    by simp
  have c: "\<exists>i<length [clean_a] + 3. \<not> (\<lambda>i. i \<noteq> 2) (calls loaded_world + i)"
    by (simp add: loaded_world_def fresh_world_def)
  have d: "rows_of loaded_world = []" "row_of clean_a = (''Book A'', 25 / 2, Some 3)"
    "commits loaded_world = 0" "books_table loaded_world = None"
    by (simp_all add: loaded_world_def fresh_world_def rows_of_def row_of_def clean_a_def)
  from commit_once_or_not_at_all [OF a a', where ok = "\<lambda>i. True"] b
    commit_once_or_not_at_all [OF a a', where ok = "\<lambda>i. i \<noteq> 2"] c d
  show ?thesis by simp
qed


end
